theory Spec2Isabelle
  imports Complex_Main "HOL-Library.Sublist"
begin

section \<open>The SAT bulletin monitor (\<^verbatim>\<open>sat-monitor/lambda_function.py\<close>)\<close>

text \<open>
  The program talks to four external services: an HTTP server (\<^verbatim>\<open>requests\<close>), an S3
  bucket (\<^verbatim>\<open>boto3\<close>), the local temporary directory (\<^verbatim>\<open>tempfile\<close>, \<^verbatim>\<open>os\<close>) and an SMTP
  server (\<^verbatim>\<open>smtplib\<close>). The embedding threads an explicit \<open>world\<close> through every function:
  the S3 bucket and the temporary directory are stores, and every external call is
  appended to a trace. What the outside answers is not decided by the program, so it is
  read from an \<open>env\<close> record of oracles, indexed by the number of external calls made so
  far; the library functions the program only calls (MD5, \<^verbatim>\<open>urljoin\<close>, \<^verbatim>\<open>str.lower\<close>, the
  HTML and PDF parsers) are fields of the same record. Every \<^verbatim>\<open>raise\<close> is an \<open>Inl\<close> result.
  Calls to \<^verbatim>\<open>logger\<close> have no effect on the results and are left out.
\<close>

subsection \<open>Exceptions\<close>

text \<open>
  \<open>SATMonitorError\<close> carries the parts its f-string message is built from.
  \<open>RequestException\<close> stands for \<^verbatim>\<open>requests.exceptions.RequestException\<close> and its
  subclasses, \<open>ClientError\<close> for \<^verbatim>\<open>botocore.exceptions.ClientError\<close> with its
  \<^verbatim>\<open>response['Error']['Code']\<close>, \<open>OtherException\<close> for any other \<^verbatim>\<open>Exception\<close>.
\<close>

datatype exn =
    SATMonitorError sat_message
  | RequestException string
  | ClientError string
  | OtherException string
and sat_message =
    MissingVariables "string list"
  | DownloadFailed string int exn
  | ScrapeFailed exn
  | EmailFailed exn

fun is_RequestException :: "exn \<Rightarrow> bool" where
  "is_RequestException (RequestException _) = True"
| "is_RequestException _ = False"

subsection \<open>Configuration (lines 25-37)\<close>

definition SAT_URL :: string where
  "SAT_URL = ''http://omawww.sat.gob.mx/sala_prensa/boletin_tecnico/Paginas/default.aspx''"

text \<open>Strings are UTF-8 byte lists; the accented letter of the third keyword is two bytes.\<close>

definition KEYWORDS :: "string list" where
  "KEYWORDS = [''CFDI 4.0'', ''Anexo 20'',
     ''contabilidad electr'' @ [CHR 0xC3, CHR 0xB3] @ ''nica'', ''e.firma'']"

definition REQUEST_TIMEOUT :: int where "REQUEST_TIMEOUT = 30"
definition MAX_RETRIES :: int where "MAX_RETRIES = 3"
definition RETRY_DELAY :: int where "RETRY_DELAY = 2"

subsection \<open>The outside world\<close>

record response =
  status_code :: int
  resp_text :: string
  resp_content :: string

datatype page = PageText string | PageRaises string

datatype tmp_fault = CreateFails string | WriteFails string

datatype log_message =
    SuccessLog string real nat nat "string list"
  | ErrorLog sat_message string
  | UnexpectedLog exn string

datatype s3_body =
    MarkerBody string string
  | FileBody string
  | LogBody log_message

record match_result =
  mr_pdf :: string
  mr_keywords :: "string list"
  mr_url :: string
  mr_processed_at :: string

datatype event =
    HttpGet string int
  | Sleep int
  | HeadObject string
  | PutObject string s3_body
  | UploadFile nat string
  | TmpCreate nat
  | TmpUnlink nat
  | SmtpSend "match_result list"

text \<open>
  The oracles. \<open>http_get env t u\<close> is what \<^verbatim>\<open>requests.get(u, ...)\<close> does when it is the
  external call number \<open>t\<close>; \<open>s3_fault env t\<close> is the exception an S3 call raises at \<open>t\<close> for a
  reason of the service's own (\<open>None\<close>: the call is served from the bucket);
  \<open>tmp_fault env t\<close> and \<open>smtp_fault env t\<close> likewise. \<open>clock_iso\<close>, \<open>clock_ymd\<close> and
  \<open>clock_stamp\<close> are \<^verbatim>\<open>datetime.now()\<close> in its three formats, \<open>seconds_between\<close> the
  difference of two readings.
\<close>

record env =
  environ :: "string \<Rightarrow> string option"
  md5_hexdigest :: "string \<Rightarrow> string"
  urljoin :: "string \<Rightarrow> string \<Rightarrow> string"
  url_basename :: "string \<Rightarrow> string"
  str_lower :: "string \<Rightarrow> string"
  find_all_a :: "string \<Rightarrow> string option list"
  pdf_reader :: "string \<Rightarrow> exn + page list"
  http_get :: "nat \<Rightarrow> string \<Rightarrow> exn + response"
  s3_fault :: "nat \<Rightarrow> exn option"
  tmp_fault :: "nat \<Rightarrow> tmp_fault option"
  smtp_fault :: "nat \<Rightarrow> exn option"
  clock_iso :: "nat \<Rightarrow> string"
  clock_ymd :: "nat \<Rightarrow> string"
  clock_stamp :: "nat \<Rightarrow> string"
  seconds_between :: "nat \<Rightarrow> nat \<Rightarrow> real"

record world =
  trace :: "event list"
  s3 :: "string \<rightharpoonup> s3_body"
  tmpfs :: "nat \<rightharpoonup> string"
  tmp_seq :: nat

definition now :: "world \<Rightarrow> nat" where
  "now w = length (trace w)"

definition emit :: "event \<Rightarrow> world \<Rightarrow> world" where
  "emit e w = w\<lparr>trace := trace w @ [e]\<rparr>"

subsection \<open>\<^verbatim>\<open>get_with_retries\<close> (lines 54-70)\<close>

definition requests_get :: "env \<Rightarrow> world \<Rightarrow> string \<Rightarrow> world \<times> (exn + response)" where
  "requests_get env w u = (emit (HttpGet u REQUEST_TIMEOUT) w, http_get env (now w) u)"

text \<open>\<^verbatim>\<open>Response.raise_for_status\<close>: an HTTPError for a 4xx or 5xx status.\<close>

definition raise_for_status :: "response \<Rightarrow> exn + unit" where
  "raise_for_status r =
     (if 400 \<le> status_code r \<and> status_code r < 600
      then Inl (RequestException ''HTTPError'') else Inr ())"

definition time_sleep :: "int \<Rightarrow> world \<Rightarrow> world" where
  "time_sleep d w = emit (Sleep d) w"

definition attempt_request :: "env \<Rightarrow> world \<Rightarrow> string \<Rightarrow> world \<times> (exn + response)" where
  "attempt_request env w u =
     (case requests_get env w u of
        (w1, Inl e) \<Rightarrow> (w1, Inl e)
      | (w1, Inr r) \<Rightarrow>
          (case raise_for_status r of Inl e \<Rightarrow> (w1, Inl e) | Inr _ \<Rightarrow> (w1, Inr r)))"

text \<open>
  The \<^verbatim>\<open>for attempt in range(max_retries)\<close> loop over the attempt numbers still to
  run. A loop that runs out (no attempt at all, when \<open>max_retries \<le> 0\<close>) falls off the
  end of the function, which then returns \<^verbatim>\<open>None\<close>.
\<close>

fun retry_loop ::
  "env \<Rightarrow> string \<Rightarrow> int \<Rightarrow> int list \<Rightarrow> world \<Rightarrow> world \<times> (exn + response option)" where
  "retry_loop env u max_retries [] w = (w, Inr None)"
| "retry_loop env u max_retries (attempt # rest) w =
     (case attempt_request env w u of
        (w1, Inr r) \<Rightarrow> (w1, Inr (Some r))
      | (w1, Inl e) \<Rightarrow>
          if is_RequestException e then
            (if attempt = max_retries - 1
             then (w1, Inl (SATMonitorError (DownloadFailed u max_retries e)))
             else retry_loop env u max_retries rest (time_sleep RETRY_DELAY w1))
          else (w1, Inl e))"

definition py_range :: "int \<Rightarrow> int list" where
  "py_range n = [0..n - 1]"

definition get_with_retries ::
  "env \<Rightarrow> world \<Rightarrow> string \<Rightarrow> int \<Rightarrow> world \<times> (exn + response option)" where
  "get_with_retries env w u max_retries =
     retry_loop env u max_retries (py_range max_retries) w"

subsection \<open>\<^verbatim>\<open>validate_environment\<close> (lines 45-51)\<close>

definition required_vars :: "string list" where
  "required_vars = [''S3_BUCKET'', ''EMAIL_SENDER'', ''EMAIL_RECIPIENT'', ''EMAIL_PASSWORD'']"

text \<open>\<^verbatim>\<open>not os.environ.get(var)\<close>: the variable is unset or empty.\<close>

definition is_missing :: "env \<Rightarrow> string \<Rightarrow> bool" where
  "is_missing env var = (case environ env var of None \<Rightarrow> True | Some v \<Rightarrow> v = [])"

definition validate_environment :: "env \<Rightarrow> exn + unit" where
  "validate_environment env =
     (let missing_vars = filter (is_missing env) required_vars
      in if missing_vars \<noteq> [] then Inl (SATMonitorError (MissingVariables missing_vars))
         else Inr ())"

subsection \<open>\<^verbatim>\<open>scrape_boletines\<close> (lines 73-91)\<close>

text \<open>\<^verbatim>\<open>href.endswith(suffix)\<close>, on the characters as they are.\<close>

definition endswith :: "string \<Rightarrow> string \<Rightarrow> bool" where
  "endswith s suf = (length suf \<le> length s \<and> drop (length s - length suf) s = suf)"

text \<open>
  The loop over \<^verbatim>\<open>soup.find_all("a", href=True)\<close>. \<open>find_all_a\<close> lists the anchors of
  the page in document order, each with its \<^verbatim>\<open>href\<close> if it has one; \<^verbatim>\<open>href=True\<close> keeps
  the anchors that have the attribute.
\<close>

fun collect_pdf_links :: "env \<Rightarrow> string option list \<Rightarrow> string list \<Rightarrow> string list" where
  "collect_pdf_links env [] pdf_links = pdf_links"
| "collect_pdf_links env (None # anchors) pdf_links = collect_pdf_links env anchors pdf_links"
| "collect_pdf_links env (Some href # anchors) pdf_links =
     (if endswith href ''.pdf''
      then collect_pdf_links env anchors (pdf_links @ [urljoin env SAT_URL href])
      else collect_pdf_links env anchors pdf_links)"

text \<open>
  Every exception of the body is wrapped in a \<open>SATMonitorError\<close>. A \<^verbatim>\<open>None\<close> from
  \<open>get_with_retries\<close> makes \<^verbatim>\<open>response.text\<close> raise an AttributeError.
\<close>

definition scrape_boletines :: "env \<Rightarrow> world \<Rightarrow> world \<times> (exn + string list)" where
  "scrape_boletines env w =
     (case get_with_retries env w SAT_URL MAX_RETRIES of
        (w1, Inl e) \<Rightarrow> (w1, Inl (SATMonitorError (ScrapeFailed e)))
      | (w1, Inr None) \<Rightarrow>
          (w1, Inl (SATMonitorError (ScrapeFailed (OtherException ''AttributeError''))))
      | (w1, Inr (Some r)) \<Rightarrow>
          (w1, Inr (collect_pdf_links env (find_all_a env (resp_text r)) [])))"

subsection \<open>\<^verbatim>\<open>extract_text_from_pdf\<close> (lines 94-114)\<close>

text \<open>\<^verbatim>\<open>sep.join(parts)\<close>.\<close>

fun join :: "string \<Rightarrow> string list \<Rightarrow> string" where
  "join sep [] = []"
| "join sep [x] = x"
| "join sep (x # y # ys) = x @ sep @ join sep (y # ys)"

text \<open>
  The loop over \<^verbatim>\<open>reader.pages\<close>: a page whose \<^verbatim>\<open>extract_text()\<close> raises is skipped, and so
  is a page whose text is empty (\<^verbatim>\<open>if page_text\<close>; \<open>PageText []\<close> also stands for a page
  whose text is \<^verbatim>\<open>None\<close>).
\<close>

fun extract_pages :: "page list \<Rightarrow> string list \<Rightarrow> string list" where
  "extract_pages [] text_parts = text_parts"
| "extract_pages (PageText page_text # pages) text_parts =
     (if page_text \<noteq> [] then extract_pages pages (text_parts @ [page_text])
      else extract_pages pages text_parts)"
| "extract_pages (PageRaises e # pages) text_parts = extract_pages pages text_parts"

definition open_rb :: "world \<Rightarrow> nat \<Rightarrow> exn + string" where
  "open_rb w path =
     (case tmpfs w path of
        None \<Rightarrow> Inl (OtherException ''FileNotFoundError'')
      | Some bytes \<Rightarrow> Inr bytes)"

text \<open>
  The body of the outer \<^verbatim>\<open>try\<close>. \<open>pdf_reader env bytes\<close> is \<open>Inl\<close> when anything outside the
  per-page \<^verbatim>\<open>try\<close> raises (the file is no PDF, its page list cannot be read).
\<close>

definition read_pdf :: "env \<Rightarrow> world \<Rightarrow> nat \<Rightarrow> exn + string" where
  "read_pdf env w pdf_path =
     (case open_rb w pdf_path of
        Inl e \<Rightarrow> Inl e
      | Inr bytes \<Rightarrow>
          (case pdf_reader env bytes of
             Inl e \<Rightarrow> Inl e
           | Inr pages \<Rightarrow> Inr (join '' '' (extract_pages pages []))))"

definition extract_text_from_pdf :: "env \<Rightarrow> world \<Rightarrow> nat \<Rightarrow> exn + string" where
  "extract_text_from_pdf env w pdf_path =
     (case read_pdf env w pdf_path of Inl e \<Rightarrow> Inr [] | Inr t \<Rightarrow> Inr t)"

subsection \<open>The dedup store: \<^verbatim>\<open>file_already_processed\<close>, \<^verbatim>\<open>mark_as_processed\<close> (lines 117-144)\<close>

definition marker_key :: "env \<Rightarrow> string \<Rightarrow> string" where
  "marker_key env pdf_url = ''processed/'' @ md5_hexdigest env pdf_url @ ''.txt''"

text \<open>
  \<^verbatim>\<open>head_object\<close> on the bucket \<^verbatim>\<open>S3_BUCKET\<close>: the service's own failure if it has one, a
  ClientError with code 404 when the bucket holds no object at the key.
\<close>

definition head_object :: "env \<Rightarrow> world \<Rightarrow> string \<Rightarrow> world \<times> (exn + unit)" where
  "head_object env w key =
     (emit (HeadObject key) w,
      case s3_fault env (now w) of
        Some e \<Rightarrow> Inl e
      | None \<Rightarrow> (case s3 w key of None \<Rightarrow> Inl (ClientError ''404'') | Some _ \<Rightarrow> Inr ()))"

definition put_object :: "env \<Rightarrow> world \<Rightarrow> string \<Rightarrow> s3_body \<Rightarrow> world \<times> (exn + unit)" where
  "put_object env w key b =
     (case s3_fault env (now w) of
        Some e \<Rightarrow> (emit (PutObject key b) w, Inl e)
      | None \<Rightarrow> (emit (PutObject key b) (w\<lparr>s3 := (s3 w)(key \<mapsto> b)\<rparr>), Inr ()))"

definition upload_file :: "env \<Rightarrow> world \<Rightarrow> nat \<Rightarrow> string \<Rightarrow> world \<times> (exn + unit)" where
  "upload_file env w path key =
     (case tmpfs w path of
        None \<Rightarrow> (emit (UploadFile path key) w, Inl (OtherException ''FileNotFoundError''))
      | Some bytes \<Rightarrow>
          (case s3_fault env (now w) of
             Some e \<Rightarrow> (emit (UploadFile path key) w, Inl e)
           | None \<Rightarrow>
               (emit (UploadFile path key) (w\<lparr>s3 := (s3 w)(key \<mapsto> FileBody bytes)\<rparr>), Inr ())))"

definition file_already_processed :: "env \<Rightarrow> world \<Rightarrow> string \<Rightarrow> world \<times> (exn + bool)" where
  "file_already_processed env w pdf_url =
     (case head_object env w (marker_key env pdf_url) of
        (w1, Inr _) \<Rightarrow> (w1, Inr True)
      | (w1, Inl (ClientError code)) \<Rightarrow>
          if code = ''404'' then (w1, Inr False) else (w1, Inl (ClientError code))
      | (w1, Inl e) \<Rightarrow> (w1, Inl e))"

text \<open>Any exception of the \<^verbatim>\<open>put_object\<close> is logged and dropped.\<close>

definition mark_as_processed :: "env \<Rightarrow> world \<Rightarrow> string \<Rightarrow> world" where
  "mark_as_processed env w pdf_url =
     fst (put_object env w (marker_key env pdf_url) (MarkerBody (clock_iso env (now w)) pdf_url))"

subsection \<open>\<^verbatim>\<open>analyze_pdfs\<close> (lines 147-208)\<close>

text \<open>\<^verbatim>\<open>needle in haystack\<close> on strings: some suffix of the haystack starts with the needle.\<close>

fun py_in :: "string \<Rightarrow> string \<Rightarrow> bool" where
  "py_in needle [] = (needle = [])"
| "py_in needle (c # cs) = (prefix needle (c # cs) \<or> py_in needle cs)"

text \<open>The keyword loop of lines 178-181, over the keywords still to test.\<close>

fun find_keywords :: "env \<Rightarrow> string \<Rightarrow> string list \<Rightarrow> string list \<Rightarrow> string list" where
  "find_keywords env doc_text [] found_keywords = found_keywords"
| "find_keywords env doc_text (keyword # rest) found_keywords =
     (if py_in (str_lower env keyword) (str_lower env doc_text)
      then find_keywords env doc_text rest (found_keywords @ [keyword])
      else find_keywords env doc_text rest found_keywords)"

text \<open>\<^verbatim>\<open>os.path.basename(urlparse(pdf_url).path) or "documento.pdf"\<close>.\<close>

definition pdf_name_of :: "env \<Rightarrow> string \<Rightarrow> string" where
  "pdf_name_of env pdf_url =
     (if url_basename env pdf_url = [] then ''documento.pdf'' else url_basename env pdf_url)"

definition archive_key :: "env \<Rightarrow> world \<Rightarrow> string \<Rightarrow> string" where
  "archive_key env w pdf_name = ''boletines/'' @ clock_ymd env (now w) @ ''/'' @ pdf_name"

text \<open>
  Lines 165-167: \<^verbatim>\<open>NamedTemporaryFile(delete=False)\<close> creates a file under a new name, the
  \<^verbatim>\<open>with\<close> body writes the downloaded bytes into it, and leaving the \<^verbatim>\<open>with\<close> block closes
  the file without deleting it. When the creation raises there is no file. When the body
  raises (the write fails, or \<^verbatim>\<open>pdf_response\<close> is \<^verbatim>\<open>None\<close> and has no \<^verbatim>\<open>content\<close>), the file
  exists and the exception leaves the \<^verbatim>\<open>with\<close> block.
\<close>

definition write_tmp :: "env \<Rightarrow> world \<Rightarrow> response option \<Rightarrow> world \<times> (exn + nat)" where
  "write_tmp env w pdf_response =
     (let tmp_path = tmp_seq w;
          w1 = emit (TmpCreate tmp_path) (w\<lparr>tmp_seq := Suc tmp_path\<rparr>);
          created = w1\<lparr>tmpfs := (tmpfs w)(tmp_path \<mapsto> [])\<rparr>
      in case tmp_fault env (now w) of
           Some (CreateFails m) \<Rightarrow> (w1, Inl (OtherException m))
         | Some (WriteFails m) \<Rightarrow> (created, Inl (OtherException m))
         | None \<Rightarrow>
             (case pdf_response of
                None \<Rightarrow> (created, Inl (OtherException ''AttributeError''))
              | Some r \<Rightarrow> (w1\<lparr>tmpfs := (tmpfs w)(tmp_path \<mapsto> resp_content r)\<rparr>, Inr tmp_path)))"

text \<open>How the processing of one link ends.\<close>

datatype outcome = AlreadyProcessed | NoText | Processed | Raised exn

text \<open>
  The body of the inner \<^verbatim>\<open>try\<close> (lines 170-197). The match is appended to \<^verbatim>\<open>updates\<close> before
  the upload, so it stays there when the upload raises.
\<close>

definition process_document ::
  "env \<Rightarrow> world \<Rightarrow> match_result list \<Rightarrow> string \<Rightarrow> string \<Rightarrow> nat
     \<Rightarrow> world \<times> match_result list \<times> outcome" where
  "process_document env w updates pdf_url pdf_name tmp_path =
     (case extract_text_from_pdf env w tmp_path of
        Inl e \<Rightarrow> (w, updates, Raised e)
      | Inr doc_text \<Rightarrow>
          if doc_text = [] then (w, updates, NoText)
          else
            (let found_keywords = find_keywords env doc_text KEYWORDS [];
                 updates1 =
                   (if found_keywords \<noteq> []
                    then updates @ [\<lparr>mr_pdf = pdf_name, mr_keywords = found_keywords,
                                     mr_url = pdf_url, mr_processed_at = clock_iso env (now w)\<rparr>]
                    else updates)
             in case upload_file env w tmp_path (archive_key env w pdf_name) of
                  (w1, Inl e) \<Rightarrow> (w1, updates1, Raised e)
                | (w1, Inr _) \<Rightarrow> (mark_as_processed env w1 pdf_url, updates1, Processed)))"

text \<open>The \<^verbatim>\<open>finally\<close> block (lines 199-202).\<close>

definition cleanup :: "world \<Rightarrow> nat \<Rightarrow> world" where
  "cleanup w tmp_path =
     (case tmpfs w tmp_path of
        None \<Rightarrow> w
      | Some _ \<Rightarrow> emit (TmpUnlink tmp_path) (w\<lparr>tmpfs := (tmpfs w)(tmp_path := None)\<rparr>))"

text \<open>
  One iteration of the \<^verbatim>\<open>for\<close> loop. The \<^verbatim>\<open>except Exception\<close> of line 204 logs and goes on
  to the next link, so an exception ends the iteration with the updates collected so far.
\<close>

definition process_link ::
  "env \<Rightarrow> world \<Rightarrow> match_result list \<Rightarrow> string \<Rightarrow> world \<times> match_result list \<times> outcome" where
  "process_link env w updates pdf_url =
     (case file_already_processed env w pdf_url of
        (w1, Inl e) \<Rightarrow> (w1, updates, Raised e)
      | (w1, Inr True) \<Rightarrow> (w1, updates, AlreadyProcessed)
      | (w1, Inr False) \<Rightarrow>
          (case get_with_retries env w1 pdf_url MAX_RETRIES of
             (w2, Inl e) \<Rightarrow> (w2, updates, Raised e)
           | (w2, Inr pdf_response) \<Rightarrow>
               (case write_tmp env w2 pdf_response of
                  (w3, Inl e) \<Rightarrow> (w3, updates, Raised e)
                | (w3, Inr tmp_path) \<Rightarrow>
                    (case process_document env w3 updates pdf_url (pdf_name_of env pdf_url) tmp_path of
                       (w4, updates1, out) \<Rightarrow> (cleanup w4 tmp_path, updates1, out)))))"

fun analyze_loop ::
  "env \<Rightarrow> world \<Rightarrow> match_result list \<Rightarrow> string list \<Rightarrow> world \<times> match_result list" where
  "analyze_loop env w updates [] = (w, updates)"
| "analyze_loop env w updates (pdf_url # rest) =
     (case process_link env w updates pdf_url of
        (w1, updates1, _) \<Rightarrow> analyze_loop env w1 updates1 rest)"

definition analyze_pdfs :: "env \<Rightarrow> world \<Rightarrow> string list \<Rightarrow> world \<times> match_result list" where
  "analyze_pdfs env w pdf_links = analyze_loop env w [] (take 10 pdf_links)"

subsection \<open>\<^verbatim>\<open>send_email\<close> and \<^verbatim>\<open>save_log\<close> (lines 211-286)\<close>

text \<open>
  The message is built from \<open>updates\<close> alone; the SMTP session (connect, STARTTLS, login,
  sendmail) is one external call, and any exception of it is wrapped.
\<close>

definition send_email :: "env \<Rightarrow> world \<Rightarrow> match_result list \<Rightarrow> world \<times> (exn + unit)" where
  "send_email env w updates =
     (if updates = [] then (w, Inr ())
      else
        (case smtp_fault env (now w) of
           Some e \<Rightarrow> (emit (SmtpSend updates) w, Inl (SATMonitorError (EmailFailed e)))
         | None \<Rightarrow> (emit (SmtpSend updates) w, Inr ())))"

definition log_key :: "env \<Rightarrow> world \<Rightarrow> string \<Rightarrow> string" where
  "log_key env w log_type = ''logs/'' @ log_type @ ''_'' @ clock_stamp env (now w) @ ''.txt''"

definition save_log :: "env \<Rightarrow> world \<Rightarrow> log_message \<Rightarrow> string \<Rightarrow> world" where
  "save_log env w log_message log_type =
     fst (put_object env w (log_key env w log_type) (LogBody log_message))"

subsection \<open>\<^verbatim>\<open>lambda_handler\<close> (lines 289-358)\<close>

datatype message = Message sat_message | InternalServerError

datatype body =
    Success (updates_found: nat) (pdfs_analyzed: nat) (execution_time: real)
  | Error message

fun status :: "body \<Rightarrow> string" where
  "status (Success _ _ _) = ''success''"
| "status (Error _) = ''error''"

record result =
  statusCode :: int
  body :: body

text \<open>The body of the \<^verbatim>\<open>try\<close> up to \<^verbatim>\<open>send_email\<close> (lines 294-305).\<close>

definition monitor ::
  "env \<Rightarrow> world \<Rightarrow> world \<times> (exn + string list \<times> match_result list)" where
  "monitor env w =
     (case validate_environment env of
        Inl e \<Rightarrow> (w, Inl e)
      | Inr _ \<Rightarrow>
          (case scrape_boletines env w of
             (w1, Inl e) \<Rightarrow> (w1, Inl e)
           | (w1, Inr pdf_links) \<Rightarrow>
               (case analyze_pdfs env w1 pdf_links of
                  (w2, updates) \<Rightarrow>
                    (case send_email env w2 updates of
                       (w3, Inl e) \<Rightarrow> (w3, Inl e)
                     | (w3, Inr _) \<Rightarrow> (w3, Inr (pdf_links, updates))))))"

definition lambda_handler :: "env \<Rightarrow> world \<Rightarrow> world \<times> result" where
  "lambda_handler env w =
     (case monitor env w of
        (w3, Inr (pdf_links, updates)) \<Rightarrow>
          (let execution_time = seconds_between env (now w) (now w3);
               log_message = SuccessLog (clock_iso env (now w3)) execution_time
                               (length pdf_links) (length updates) (map mr_pdf updates)
           in (save_log env w3 log_message ''success'',
               \<lparr>statusCode = 200,
                body = Success (length updates) (length pdf_links) execution_time\<rparr>))
      | (w3, Inl (SATMonitorError m)) \<Rightarrow>
          (save_log env w3 (ErrorLog m (clock_iso env (now w3))) ''error'',
           \<lparr>statusCode = 500, body = Error (Message m)\<rparr>)
      | (w3, Inl e) \<Rightarrow>
          (save_log env w3 (UnexpectedLog e (clock_iso env (now w3))) ''error'',
           \<lparr>statusCode = 500, body = Error InternalServerError\<rparr>))"

section \<open>Vocabulary of the properties\<close>

text \<open>
  \<open>attempt_outcome env u t\<close> is how the request attempt made as external call \<open>t\<close> ends
  (the response, or the exception of \<^verbatim>\<open>requests.get\<close> or of \<^verbatim>\<open>raise_for_status\<close>); it is a
  transport failure when the exception is a \<open>RequestException\<close>. \<open>attempts k u\<close> is the
  trace of \<open>k\<close> requests for \<open>u\<close> with one sleep of \<open>RETRY_DELAY\<close> between two of them.
  A failed attempt that is retried is followed by one sleep, so the attempt number \<open>i\<close>
  (from 0) of a call of \<open>get_with_retries\<close> that starts in the world \<open>w\<close> is the external
  call number \<open>now w + 2 * i\<close>.
\<close>

fun intersperse :: "'a \<Rightarrow> 'a list \<Rightarrow> 'a list" where
  "intersperse s [] = []"
| "intersperse s [x] = [x]"
| "intersperse s (x # y # ys) = x # s # intersperse s (y # ys)"

definition attempt_outcome :: "env \<Rightarrow> string \<Rightarrow> nat \<Rightarrow> exn + response" where
  "attempt_outcome env u t =
     (case http_get env t u of
        Inl e \<Rightarrow> Inl e
      | Inr r \<Rightarrow> (case raise_for_status r of Inl e \<Rightarrow> Inl e | Inr _ \<Rightarrow> Inr r))"


definition attempts :: "nat \<Rightarrow> string \<Rightarrow> event list" where
  "attempts k u = intersperse (Sleep RETRY_DELAY) (replicate k (HttpGet u REQUEST_TIMEOUT))"

subsection \<open>Events of a run\<close>

text \<open>
  \<open>new_events w w'\<close> are the external calls made between the worlds \<open>w\<close> and \<open>w'\<close>;
  \<open>dedup_checks\<close>, \<open>fetched_urls\<close> and \<open>emails_sent\<close> pick the keys of the \<^verbatim>\<open>head_object\<close>
  calls, the URLs requested and the emails submitted. \<open>concerns env links e\<close>: the call
  \<open>e\<close> is about one of \<open>links\<close> (its URL, its marker key, an archive key ending in its file
  name) or touches no service (a sleep, the temporary file), and is no email.
  \<open>all_processed env w links\<close>: the dedup checks of \<open>links\<close>, made one after the other from
  \<open>w\<close>, all answer \<open>True\<close>.
\<close>

definition new_events :: "world \<Rightarrow> world \<Rightarrow> event list" where
  "new_events w w' = drop (length (trace w)) (trace w')"

fun dedup_checks :: "event list \<Rightarrow> string list" where
  "dedup_checks [] = []"
| "dedup_checks (HeadObject k # es) = k # dedup_checks es"
| "dedup_checks (e # es) = dedup_checks es"

fun fetched_urls :: "event list \<Rightarrow> string list" where
  "fetched_urls [] = []"
| "fetched_urls (HttpGet u t # es) = u # fetched_urls es"
| "fetched_urls (e # es) = fetched_urls es"

fun emails_sent :: "event list \<Rightarrow> match_result list list" where
  "emails_sent [] = []"
| "emails_sent (SmtpSend m # es) = m # emails_sent es"
| "emails_sent (e # es) = emails_sent es"

fun concerns :: "env \<Rightarrow> string list \<Rightarrow> event \<Rightarrow> bool" where
  "concerns env links (HttpGet u t) = (u \<in> set links)"
| "concerns env links (HeadObject k) = (k \<in> marker_key env ` set links)"
| "concerns env links (PutObject k b) = (k \<in> marker_key env ` set links)"
| "concerns env links (UploadFile p k) =
     (\<exists>u\<in>set links. prefix ''boletines/'' k \<and> suffix (''/'' @ pdf_name_of env u) k)"
| "concerns env links (SmtpSend m) = False"
| "concerns env links (Sleep d) = True"
| "concerns env links (TmpCreate p) = True"
| "concerns env links (TmpUnlink p) = True"

text \<open>
  \<open>link_steps env u n w w'\<close>: the world \<open>w'\<close> is \<open>w\<close> after some more external calls, none of
  them a dedup check or an email, all of them about the link \<open>u\<close>, at most \<open>n\<close> of them
  requests.
\<close>

definition link_steps :: "env \<Rightarrow> string \<Rightarrow> nat \<Rightarrow> world \<Rightarrow> world \<Rightarrow> bool" where
  "link_steps env u n w w' =
     (\<exists>es. trace w' = trace w @ es \<and> dedup_checks es = [] \<and> emails_sent es = [] \<and>
           (\<forall>e\<in>set es. concerns env [u] e) \<and> length (fetched_urls es) \<le> n)"

fun all_processed :: "env \<Rightarrow> world \<Rightarrow> string list \<Rightarrow> bool" where
  "all_processed env w [] = True"
| "all_processed env w (u # us) =
     (case file_already_processed env w u of
        (w1, r) \<Rightarrow> r = Inr True \<and> all_processed env w1 us)"

section \<open>Sample environments\<close>

text \<open>
  Concrete oracles and worlds, on which the theorems below are instantiated. \<open>ascii_lower\<close>
  lowers the ASCII letters; the sample fingerprint is the URL itself.
\<close>

definition ascii_lower :: "string \<Rightarrow> string" where
  "ascii_lower s =
     map (\<lambda>c. case map_of (zip ''ABCDEFGHIJKLMNOPQRSTUVWXYZ'' ''abcdefghijklmnopqrstuvwxyz'') c of
                 None \<Rightarrow> c | Some l \<Rightarrow> l) s"

definition sample_response :: response where
  "sample_response =
     \<lparr>status_code = 200, resp_text = ''<html>'', resp_content = ''Nuevo CFDI 4.0''\<rparr>"

definition sample_env :: env where
  "sample_env =
     \<lparr>environ = (\<lambda>v. Some ''configured''),
      md5_hexdigest = (\<lambda>u. u),
      urljoin = (\<lambda>base href. ''http://sat.example'' @ href),
      url_basename = (\<lambda>u. rev (takeWhile (\<lambda>c. c \<noteq> CHR ''/'') (rev u))),
      str_lower = ascii_lower,
      find_all_a = (\<lambda>html. [Some ''/boletin/x.pdf'', None, Some ''/doc.PDF'',
                               Some ''/a/doc.pdf'', Some ''/index.html'', Some ''/boletin/x.pdf'']),
      pdf_reader = (\<lambda>bytes. if bytes = ''broken'' then Inl (OtherException ''PdfReadError'')
                             else Inr [PageText bytes, PageRaises ''bad page'', PageText [],
                                       PageText ''Anexo 20'']),
      http_get = (\<lambda>t u. Inr sample_response),
      s3_fault = (\<lambda>t. None),
      tmp_fault = (\<lambda>t. None),
      smtp_fault = (\<lambda>t. None),
      clock_iso = (\<lambda>t. ''2024-01-01T00:00:00''),
      clock_ymd = (\<lambda>t. ''20240101''),
      clock_stamp = (\<lambda>t. ''20240101_000000''),
      seconds_between = (\<lambda>t0 t1. real (t1 - t0))\<rparr>"

definition empty_world :: world where
  "empty_world = \<lparr>trace = [], s3 = Map.empty, tmpfs = Map.empty, tmp_seq = 0\<rparr>"


definition marked_world :: world where
  "marked_world =
     empty_world\<lparr>s3 := [''processed/http://sat.example/x.pdf.txt'' \<mapsto>
                            MarkerBody ''2023-12-31T00:00:00'' ''http://sat.example/x.pdf'']\<rparr>"

definition denied_env :: env where
  "denied_env = sample_env\<lparr>s3_fault := (\<lambda>t. Some (ClientError ''403''))\<rparr>"

definition not_found_env :: env where
  "not_found_env = sample_env\<lparr>s3_fault := (\<lambda>t. Some (ClientError ''404''))\<rparr>"

definition doc_world :: world where
  "doc_world =
     empty_world\<lparr>tmpfs := [0 \<mapsto> ''Aviso: cfdi 4.0 y E.FIRMA'', 1 \<mapsto> ''broken''], tmp_seq := 2\<rparr>"

definition seen_world :: world where
  "seen_world =
     empty_world\<lparr>s3 := (\<lambda>k. if prefix ''processed/'' k
                             then Some (MarkerBody ''2023-12-31T00:00:00'' ''earlier run'')
                             else None)\<rparr>"

definition many_env :: env where
  "many_env = sample_env\<lparr>find_all_a := (\<lambda>html. replicate 25 (Some ''/boletin/x.pdf''))\<rparr>"

definition smtp_down_env :: env where
  "smtp_down_env =
     sample_env\<lparr>find_all_a := (\<lambda>html. [Some ''/boletin/x.pdf'']),
                smtp_fault := (\<lambda>t. Some (OtherException ''SMTPAuthenticationError''))\<rparr>"

definition disk_full_env :: env where
  "disk_full_env =
     sample_env\<lparr>tmp_fault := (\<lambda>t. Some (WriteFails ''OSError: No space left on device''))\<rparr>"

definition one_new_world :: world where
  "one_new_world =
     empty_world\<lparr>s3 := (\<lambda>k. if k = ''processed/http://sat.example/b/01.pdf.txt'' then None
                             else s3 seen_world k)\<rparr>"

definition twelve_links :: "string list" where
  "twelve_links =
     map (\<lambda>n. ''http://sat.example/b/'' @ n @ ''.pdf'')
       [''01'', ''02'', ''03'', ''04'', ''05'', ''06'', ''07'', ''08'', ''09'', ''10'', ''11'', ''12'']"

section \<open>Basic facts\<close>

lemma now_emit [simp]: "now (emit e w) = Suc (now w)"
  by (simp add: now_def emit_def)

lemma trace_emit [simp]: "trace (emit e w) = trace w @ [e]"
  by (simp add: emit_def)


lemma py_in_sublist: "py_in n h = sublist n h"
  by (induction h) (auto simp: sublist_Cons_right)

lemma collect_pdf_links_eq:
  "collect_pdf_links env anchors acc =
     acc @ map (urljoin env SAT_URL)
             (filter (\<lambda>h. endswith h ''.pdf'') (map the (filter (\<lambda>a. a \<noteq> None) anchors)))"
  by (induction env anchors acc rule: collect_pdf_links.induct) simp_all

lemma find_keywords_eq:
  "find_keywords env t ks acc =
     acc @ filter (\<lambda>k. py_in (str_lower env k) (str_lower env t)) ks"
  by (induction env t ks acc rule: find_keywords.induct) simp_all

lemma extract_pages_eq:
  "extract_pages pages acc = acc @ [t. PageText t \<leftarrow> pages, t \<noteq> []]"
  by (induction pages acc rule: extract_pages.induct) simp_all

lemma distinct_KEYWORDS: "distinct KEYWORDS"
  by (simp add: KEYWORDS_def)

lemma sample_get:
  "get_with_retries sample_env w u MAX_RETRIES =
     (emit (HttpGet u REQUEST_TIMEOUT) w, Inr (Some sample_response))"
  by (simp add: get_with_retries_def py_range_def MAX_RETRIES_def upto.simps attempt_request_def
      requests_get_def raise_for_status_def sample_env_def sample_response_def)

section \<open>The retrying fetcher\<close>

lemma attempt_request_eq:
  "attempt_request env w u = (emit (HttpGet u REQUEST_TIMEOUT) w, attempt_outcome env u (now w))"
  by (simp add: attempt_request_def requests_get_def attempt_outcome_def split: sum.splits)

lemma attempts_Suc: "1 \<le> k \<Longrightarrow>
  [HttpGet u REQUEST_TIMEOUT, Sleep RETRY_DELAY] @ attempts k u = attempts (Suc k) u"
  by (cases k) (simp_all add: attempts_def)

lemma attempts_1: "attempts (Suc 0) u = [HttpGet u REQUEST_TIMEOUT]"
  by (simp add: attempts_def)

lemma retry_loop_shape:
  "int m = n - a \<Longrightarrow> 1 \<le> m \<Longrightarrow>
   \<exists>k. 1 \<le> k \<and> k \<le> m \<and>
     trace (fst (retry_loop env u n [a..n - 1] w)) = trace w @ attempts k u"
proof (induction m arbitrary: a w)
  case 0
  then show ?case by simp
next
  case (Suc m)
  have up: "[a..n - 1] = a # [a + 1..n - 1]"
    using Suc.prems by (simp add: upto_rec1)
  show ?case
  proof (cases "attempt_outcome env u (now w)")
    case (Inr r)
    then show ?thesis
      by (intro exI[of _ 1]) (simp add: up attempt_request_eq attempts_1)
  next
    case (Inl e)
    show ?thesis
    proof (cases "is_RequestException e \<and> a \<noteq> n - 1")
      case False
      then show ?thesis using Inl
        by (intro exI[of _ 1]) (auto simp: up attempt_request_eq attempts_1)
    next
      case True
      then have m: "int m = n - (a + 1)" "1 \<le> m" using Suc.prems by auto
      let ?w2 = "time_sleep RETRY_DELAY (emit (HttpGet u REQUEST_TIMEOUT) w)"
      from Suc.IH [OF m, of ?w2] obtain k where k: "1 \<le> k" "k \<le> m"
        "trace (fst (retry_loop env u n [a + 1..n - 1] ?w2)) = trace ?w2 @ attempts k u"
        by blast
      have "trace (fst (retry_loop env u n [a..n - 1] w)) = trace w @ attempts (Suc k) u"
        using True Inl k(3) attempts_Suc [OF k(1), of u]
        by (simp add: up attempt_request_eq time_sleep_def)
      then show ?thesis using k by (intro exI[of _ "Suc k"]) simp
    qed
  qed
qed



lemma retry_loop_trace_any:
  "\<exists>k\<le>nat n. trace (fst (get_with_retries env w u n)) = trace w @ attempts k u"
proof (cases "1 \<le> n")
  case True
  then have "int (nat n) = n - 0" "1 \<le> nat n" by auto
  from retry_loop_shape [OF this, of env u w]
  show ?thesis by (auto simp: get_with_retries_def py_range_def)
next
  case False
  then show ?thesis
    by (intro exI[of _ 0]) (simp add: get_with_retries_def py_range_def attempts_def)
qed







section \<open>Link extraction\<close>



section \<open>Text extraction\<close>

text \<open>
  C6. \<open>extract_text_from_pdf\<close> always returns a string and never raises. When the file
  opens as a PDF, the result is the non-empty texts of the pages whose extraction did not
  raise, in page order, joined by one space; a page that raises is skipped and the pages
  after it are still read. When the file cannot be opened or is not a PDF, the result is
  the empty string.
\<close>

theorem extract_text_total:
  "(\<exists>t. extract_text_from_pdf env w p = Inr t) \<and>
   (\<forall>bytes pages. tmpfs w p = Some bytes \<and> pdf_reader env bytes = Inr pages \<longrightarrow>
      extract_text_from_pdf env w p = Inr (join '' '' [t. PageText t \<leftarrow> pages, t \<noteq> []])) \<and>
   (tmpfs w p = None \<longrightarrow> extract_text_from_pdf env w p = Inr []) \<and>
   (\<forall>bytes e. tmpfs w p = Some bytes \<and> pdf_reader env bytes = Inl e \<longrightarrow>
      extract_text_from_pdf env w p = Inr [])"
  by (auto simp: extract_text_from_pdf_def read_pdf_def open_rb_def extract_pages_eq
      split: sum.splits option.splits)

theorem extract_text_total_witness:
  "tmpfs doc_world 0 = Some ''Aviso: cfdi 4.0 y E.FIRMA'' \<and>
   pdf_reader sample_env ''Aviso: cfdi 4.0 y E.FIRMA'' =
     Inr [PageText ''Aviso: cfdi 4.0 y E.FIRMA'', PageRaises ''bad page'', PageText [],
          PageText ''Anexo 20''] \<and>
   extract_text_from_pdf sample_env doc_world 0 = Inr ''Aviso: cfdi 4.0 y E.FIRMA Anexo 20'' \<and>
   tmpfs doc_world 1 = Some ''broken'' \<and>
   pdf_reader sample_env ''broken'' = Inl (OtherException ''PdfReadError'') \<and>
   extract_text_from_pdf sample_env doc_world 1 = Inr [] \<and>
   tmpfs doc_world 2 = None \<and>
   extract_text_from_pdf sample_env doc_world 2 = Inr []"
  using extract_text_total [of sample_env doc_world 0]
    extract_text_total [of sample_env doc_world 1]
    extract_text_total [of sample_env doc_world 2]
  by (simp add: doc_world_def empty_world_def sample_env_def)

section \<open>The dedup store\<close>

text \<open>
  C8. \<open>file_already_processed\<close> makes one \<^verbatim>\<open>head_object\<close> call at the key
  \<^verbatim>\<open>processed/{md5(url)}.txt\<close>. When the service answers from the bucket, the result is
  \<open>True\<close> if the bucket holds an object at that key and \<open>False\<close> if not; a ClientError with
  code 404 gives \<open>False\<close>; any other exception of the call is raised to the caller
  unchanged.
\<close>

theorem file_already_processed_spec:
  "fst (file_already_processed env w u) =
     emit (HeadObject (''processed/'' @ md5_hexdigest env u @ ''.txt'')) w \<and>
   (s3_fault env (now w) = None \<longrightarrow>
      snd (file_already_processed env w u) =
        Inr (s3 w (''processed/'' @ md5_hexdigest env u @ ''.txt'') \<noteq> None)) \<and>
   (s3_fault env (now w) = Some (ClientError ''404'') \<longrightarrow>
      snd (file_already_processed env w u) = Inr False) \<and>
   (\<forall>e. s3_fault env (now w) = Some e \<and> e \<noteq> ClientError ''404'' \<longrightarrow>
      snd (file_already_processed env w u) = Inl e)"
  by (auto simp: file_already_processed_def head_object_def marker_key_def
      split: option.splits sum.splits exn.splits)

theorem file_already_processed_spec_witness:
  "s3_fault sample_env (now marked_world) = None \<and>
   snd (file_already_processed sample_env marked_world ''http://sat.example/x.pdf'') = Inr True \<and>
   snd (file_already_processed sample_env marked_world ''http://sat.example/y.pdf'') = Inr False \<and>
   s3_fault not_found_env (now marked_world) = Some (ClientError ''404'') \<and>
   snd (file_already_processed not_found_env marked_world ''http://sat.example/x.pdf'') = Inr False \<and>
   s3_fault denied_env (now marked_world) = Some (ClientError ''403'') \<and>
   ClientError ''403'' \<noteq> ClientError ''404'' \<and>
   snd (file_already_processed denied_env marked_world ''http://sat.example/x.pdf'') =
     Inl (ClientError ''403'')"
  using file_already_processed_spec [of sample_env marked_world "''http://sat.example/x.pdf''"]
    file_already_processed_spec [of sample_env marked_world "''http://sat.example/y.pdf''"]
    file_already_processed_spec [of not_found_env marked_world "''http://sat.example/x.pdf''"]
    file_already_processed_spec [of denied_env marked_world "''http://sat.example/x.pdf''"]
  by (simp add: sample_env_def not_found_env_def denied_env_def marked_world_def empty_world_def)

section \<open>Keyword matching\<close>

text \<open>
  C5. The keyword loop returns the keywords of the list whose lowercased form occurs in the
  lowercased text as a contiguous substring, in the order of the list; the result is empty
  exactly when no keyword occurs. It repeats no keyword when the list repeats none, and the
  configured list \<open>KEYWORDS\<close> repeats none. \<open>process_document\<close> appends a match to
  \<open>updates\<close> only when the text is non-empty and this result is non-empty, and the match
  holds this result.
\<close>

theorem keyword_matching:
  "find_keywords env t ks [] = filter (\<lambda>k. sublist (str_lower env k) (str_lower env t)) ks \<and>
   (find_keywords env t ks [] = [] \<longleftrightarrow>
      (\<forall>k\<in>set ks. \<not> sublist (str_lower env k) (str_lower env t))) \<and>
   (distinct ks \<longrightarrow> distinct (find_keywords env t ks [])) \<and>
   distinct (find_keywords env t KEYWORDS []) \<and>
   (extract_text_from_pdf env w p = Inr t \<longrightarrow>
      fst (snd (process_document env w updates u name p)) =
        (if t \<noteq> [] \<and> find_keywords env t KEYWORDS [] \<noteq> []
         then updates @ [\<lparr>mr_pdf = name, mr_keywords = find_keywords env t KEYWORDS [],
                           mr_url = u, mr_processed_at = clock_iso env (now w)\<rparr>]
         else updates))"
  by (auto simp: find_keywords_eq py_in_sublist distinct_KEYWORDS process_document_def Let_def
      filter_empty_conv split: prod.splits sum.splits)

lemma doc_text:
  "extract_text_from_pdf sample_env doc_world 0 = Inr ''Aviso: cfdi 4.0 y E.FIRMA Anexo 20''"
  by (simp add: extract_text_from_pdf_def read_pdf_def open_rb_def doc_world_def empty_world_def
      sample_env_def)

lemma doc_keywords:
  "find_keywords sample_env ''Aviso: cfdi 4.0 y E.FIRMA Anexo 20'' KEYWORDS [] =
     [''CFDI 4.0'', ''Anexo 20'', ''e.firma'']"
  by (simp add: KEYWORDS_def sample_env_def ascii_lower_def)

theorem keyword_matching_witness:
  "distinct KEYWORDS \<and>
   find_keywords sample_env ''Aviso: cfdi 4.0 y E.FIRMA Anexo 20'' KEYWORDS [] =
     [''CFDI 4.0'', ''Anexo 20'', ''e.firma''] \<and>
   extract_text_from_pdf sample_env doc_world 0 = Inr ''Aviso: cfdi 4.0 y E.FIRMA Anexo 20'' \<and>
   fst (snd (process_document sample_env doc_world [] ''http://sat.example/x.pdf'' ''x.pdf'' 0)) =
     [\<lparr>mr_pdf = ''x.pdf'', mr_keywords = [''CFDI 4.0'', ''Anexo 20'', ''e.firma''],
       mr_url = ''http://sat.example/x.pdf'', mr_processed_at = ''2024-01-01T00:00:00''\<rparr>]"
proof -
  note k = keyword_matching [of sample_env "''Aviso: cfdi 4.0 y E.FIRMA Anexo 20''" KEYWORDS
      doc_world 0 "[]" "''http://sat.example/x.pdf''" "''x.pdf''"]
  from k doc_text have
    "fst (snd (process_document sample_env doc_world [] ''http://sat.example/x.pdf'' ''x.pdf'' 0)) =
       [\<lparr>mr_pdf = ''x.pdf'',
         mr_keywords = find_keywords sample_env ''Aviso: cfdi 4.0 y E.FIRMA Anexo 20'' KEYWORDS [],
         mr_url = ''http://sat.example/x.pdf'',
         mr_processed_at = clock_iso sample_env (now doc_world)\<rparr>]"
    by (simp add: doc_keywords)
  then show ?thesis
    using doc_text doc_keywords distinct_KEYWORDS by (simp add: sample_env_def)
qed

section \<open>The events of one link and of the analysis\<close>

lemma dedup_checks_append [simp]: "dedup_checks (xs @ ys) = dedup_checks xs @ dedup_checks ys"
  by (induction xs rule: dedup_checks.induct) simp_all

lemma fetched_urls_append [simp]: "fetched_urls (xs @ ys) = fetched_urls xs @ fetched_urls ys"
  by (induction xs rule: fetched_urls.induct) simp_all

lemma emails_sent_append [simp]: "emails_sent (xs @ ys) = emails_sent xs @ emails_sent ys"
  by (induction xs rule: emails_sent.induct) simp_all

lemma new_events_append [simp]: "trace w' = trace w @ es \<Longrightarrow> new_events w w' = es"
  by (simp add: new_events_def)

lemma concerns_mono: "concerns env [u] e \<Longrightarrow> u \<in> set links \<Longrightarrow> concerns env links e"
  by (cases e) auto

text \<open>What each step appends to the trace.\<close>

lemma attempts_quiet:
  "dedup_checks (attempts k u) = [] \<and> emails_sent (attempts k u) = [] \<and>
   fetched_urls (attempts k u) = replicate k u \<and> (\<forall>e\<in>set (attempts k u). concerns env [u] e)"
proof (induction k rule: less_induct)
  case (less k)
  show ?case
  proof (cases k)
    case 0
    then show ?thesis by (simp add: attempts_def)
  next
    case (Suc j)
    show ?thesis
    proof (cases j)
      case 0
      then show ?thesis using Suc by (simp add: attempts_def)
    next
      case (Suc i)
      have "attempts k u = [HttpGet u REQUEST_TIMEOUT, Sleep RETRY_DELAY] @ attempts j u"
        using \<open>k = Suc j\<close> Suc by (simp add: attempts_def)
      moreover have "j < k" using \<open>k = Suc j\<close> by simp
      ultimately show ?thesis using less.IH [of j] \<open>k = Suc j\<close> by simp
    qed
  qed
qed

lemma get_with_retries_trace:
  "\<exists>k\<le>nat n. trace (fst (get_with_retries env w u n)) = trace w @ attempts k u"
  by (rule retry_loop_trace_any)

lemma retry_loop_stores:
  "s3 (fst (retry_loop env u n as w)) = s3 w \<and>
   tmpfs (fst (retry_loop env u n as w)) = tmpfs w \<and>
   tmp_seq (fst (retry_loop env u n as w)) = tmp_seq w"
  by (induction env u n as w rule: retry_loop.induct)
     (auto simp: attempt_request_eq time_sleep_def emit_def split: sum.splits)

lemma get_with_retries_stores:
  "s3 (fst (get_with_retries env w u n)) = s3 w \<and>
   tmpfs (fst (get_with_retries env w u n)) = tmpfs w \<and>
   tmp_seq (fst (get_with_retries env w u n)) = tmp_seq w"
  by (simp add: get_with_retries_def retry_loop_stores)

lemma file_already_processed_world:
  "fst (file_already_processed env w u) = emit (HeadObject (marker_key env u)) w"
  by (auto simp: file_already_processed_def head_object_def
      split: option.splits sum.splits exn.splits)


lemma link_steps_refl: "link_steps env u n w w"
  by (simp add: link_steps_def)

lemma link_steps_trans:
  "link_steps env u m w w1 \<Longrightarrow> link_steps env u n w1 w2 \<Longrightarrow> link_steps env u (m + n) w w2"
  unfolding link_steps_def by (elim exE conjE, rule_tac x="es @ esa" in exI) auto

lemma link_steps_get: "link_steps env u 3 w (fst (get_with_retries env w u MAX_RETRIES))"
proof -
  obtain k where k: "k \<le> nat MAX_RETRIES"
    "trace (fst (get_with_retries env w u MAX_RETRIES)) = trace w @ attempts k u"
    using get_with_retries_trace by blast
  then have "k \<le> 3" by (simp add: MAX_RETRIES_def)
  then show ?thesis
    unfolding link_steps_def using k(2) attempts_quiet [of k u env]
    by (intro exI[of _ "attempts k u"]) simp
qed

lemma link_steps_write_tmp: "link_steps env u 0 w (fst (write_tmp env w r))"
  unfolding link_steps_def
  by (intro exI[of _ "[TmpCreate (tmp_seq w)]"])
     (simp add: write_tmp_def Let_def split: option.splits tmp_fault.splits)

lemma link_steps_cleanup: "link_steps env u 0 w (cleanup w p)"
proof (cases "tmpfs w p")
  case None
  then show ?thesis by (simp add: cleanup_def link_steps_refl)
next
  case (Some bytes)
  then show ?thesis
    unfolding link_steps_def by (intro exI[of _ "[TmpUnlink p]"]) (simp add: cleanup_def)
qed

lemma trace_upload_file: "trace (fst (upload_file env w p k)) = trace w @ [UploadFile p k]"
  by (simp add: upload_file_def split: option.splits)

lemma trace_put_object: "trace (fst (put_object env w k b)) = trace w @ [PutObject k b]"
  by (simp add: put_object_def split: option.splits)

lemma archive_key_shape:
  "prefix ''boletines/'' (archive_key env w n) \<and> suffix (''/'' @ n) (archive_key env w n)"
proof -
  have "archive_key env w n = (''boletines/'' @ clock_ymd env (now w)) @ (''/'' @ n)"
    by (simp add: archive_key_def)
  then have "suffix (''/'' @ n) (archive_key env w n)"
    unfolding suffix_def by blast
  then show ?thesis by (simp add: archive_key_def)
qed

lemma link_steps_upload:
  "link_steps env u 0 w (fst (upload_file env w p (archive_key env w' (pdf_name_of env u))))"
  unfolding link_steps_def
  using archive_key_shape [of env w' "pdf_name_of env u"]
  by (intro exI[of _ "[UploadFile p (archive_key env w' (pdf_name_of env u))]"])
     (simp add: trace_upload_file)

lemma link_steps_mark: "link_steps env u 0 w (mark_as_processed env w u)"
  unfolding link_steps_def mark_as_processed_def
  by (intro exI[of _ "[PutObject (marker_key env u) (MarkerBody (clock_iso env (now w)) u)]"])
     (simp add: trace_put_object)

lemma link_steps_process_document:
  "link_steps env u 0 w (fst (process_document env w ups u (pdf_name_of env u) p))"
proof -
  let ?up = "upload_file env w p (archive_key env w (pdf_name_of env u))"
  have 1: "link_steps env u 0 w (fst ?up)" by (rule link_steps_upload)
  have 2: "link_steps env u 0 (fst ?up) (mark_as_processed env (fst ?up) u)"
    by (rule link_steps_mark)
  from link_steps_trans [OF 1 2] have 3: "link_steps env u 0 w (mark_as_processed env (fst ?up) u)"
    by simp
  show ?thesis
    using 1 3 link_steps_refl [of env u 0 w]
    by (auto simp: process_document_def Let_def split: sum.splits prod.splits)
qed

lemma process_link_steps:
  "link_steps env u 3 (emit (HeadObject (marker_key env u)) w) (fst (process_link env w ups u))"
proof -
  let ?w1 = "emit (HeadObject (marker_key env u)) w"
  let ?g = "get_with_retries env ?w1 u MAX_RETRIES"
  let ?t = "write_tmp env (fst ?g) (projr (snd ?g))"
  let ?d = "process_document env (fst ?t) ups u (pdf_name_of env u) (projr (snd ?t))"
  have w1: "fst (file_already_processed env w u) = ?w1"
    by (rule file_already_processed_world)
  have g: "link_steps env u 3 ?w1 (fst ?g)" by (rule link_steps_get)
  have "link_steps env u 0 (fst ?g) (fst ?t)" by (rule link_steps_write_tmp)
  from link_steps_trans [OF g this] have t: "link_steps env u 3 ?w1 (fst ?t)" by simp
  have "link_steps env u 0 (fst ?t) (fst ?d)" by (rule link_steps_process_document)
  from link_steps_trans [OF t this] have d: "link_steps env u 3 ?w1 (fst ?d)" by simp
  have "link_steps env u 0 (fst ?d) (cleanup (fst ?d) (projr (snd ?t)))"
    by (rule link_steps_cleanup)
  from link_steps_trans [OF d this]
  have c: "link_steps env u 3 ?w1 (cleanup (fst ?d) (projr (snd ?t)))" by simp
  show ?thesis
    using w1 g t c link_steps_refl [of env u 3 ?w1]
    by (auto simp: process_link_def split: prod.splits sum.splits bool.splits)
qed


lemma concerns_subset: "concerns env ls e \<Longrightarrow> set ls \<subseteq> set ls' \<Longrightarrow> concerns env ls' e"
  by (cases e) auto

lemma analyze_loop_events:
  "\<exists>es. trace (fst (analyze_loop env w ups links)) = trace w @ es \<and>
        dedup_checks es = map (marker_key env) links \<and> emails_sent es = [] \<and>
        (\<forall>e\<in>set es. concerns env links e) \<and> length (fetched_urls es) \<le> 3 * length links"
proof (induction links arbitrary: w ups)
  case Nil
  then show ?case by simp
next
  case (Cons u rest)
  obtain w1 ups1 out where p: "process_link env w ups u = (w1, ups1, out)"
    by (cases "process_link env w ups u") auto
  from process_link_steps [of env u w ups] p obtain es1 where es1:
    "trace w1 = trace w @ HeadObject (marker_key env u) # es1" "dedup_checks es1 = []"
    "emails_sent es1 = []" "\<forall>e\<in>set es1. concerns env [u] e" "length (fetched_urls es1) \<le> 3"
    unfolding link_steps_def by auto
  from Cons.IH [of w1 ups1] obtain es2 where es2:
    "trace (fst (analyze_loop env w1 ups1 rest)) = trace w1 @ es2"
    "dedup_checks es2 = map (marker_key env) rest" "emails_sent es2 = []"
    "\<forall>e\<in>set es2. concerns env rest e" "length (fetched_urls es2) \<le> 3 * length rest"
    by blast
  let ?es = "HeadObject (marker_key env u) # es1 @ es2"
  have c1: "\<forall>e\<in>set es1. concerns env (u # rest) e"
    using es1(4) by (auto intro: concerns_mono)
  have c2: "\<forall>e\<in>set es2. concerns env (u # rest) e"
    using es2(4) by (auto intro: concerns_subset)
  have "trace (fst (analyze_loop env w ups (u # rest))) = trace w @ ?es"
    using p es1(1) es2(1) by simp
  moreover have "dedup_checks ?es = map (marker_key env) (u # rest)"
    using es1(2) es2(2) by simp
  moreover have "emails_sent ?es = []" using es1(3) es2(3) by simp
  moreover have "\<forall>e\<in>set ?es. concerns env (u # rest) e" using c1 c2 by auto
  moreover have "length (fetched_urls ?es) \<le> 3 * length (u # rest)"
    using es1(5) es2(5) by simp
  ultimately show ?case by blast
qed

text \<open>
  C3. The analysis of a link list is the analysis of its first ten links: what comes after
  them changes neither the result nor the world. The run makes exactly one dedup check for
  each of the first ten links, in discovery order, and no other; every request, upload and
  marker write is about one of these ten, and there are at most three requests for each.
\<close>

theorem analyze_pdfs_cap:
  "analyze_pdfs env w links = analyze_pdfs env w (take 10 links) \<and>
   trace (fst (analyze_pdfs env w links)) =
     trace w @ new_events w (fst (analyze_pdfs env w links)) \<and>
   dedup_checks (new_events w (fst (analyze_pdfs env w links))) =
     map (marker_key env) (take 10 links) \<and>
   (\<forall>e\<in>set (new_events w (fst (analyze_pdfs env w links))). concerns env (take 10 links) e) \<and>
   length (fetched_urls (new_events w (fst (analyze_pdfs env w links)))) \<le> 3 * 10"
proof -
  obtain es where es:
    "trace (fst (analyze_loop env w [] (take 10 links))) = trace w @ es"
    "dedup_checks es = map (marker_key env) (take 10 links)"
    "\<forall>e\<in>set es. concerns env (take 10 links) e"
    "length (fetched_urls es) \<le> 3 * length (take 10 links)"
    using analyze_loop_events [of env w "[]" "take 10 links"] by blast
  have n: "new_events w (fst (analyze_pdfs env w links)) = es"
    using es(1) by (simp add: analyze_pdfs_def)
  have "length (fetched_urls es) \<le> 3 * 10"
    using es(4) by simp
  then show ?thesis
    using es n by (simp add: analyze_pdfs_def)
qed

section \<open>The whole run\<close>

lemma trace_send_email:
  "trace (fst (send_email env w ups)) = trace w @ (if ups = [] then [] else [SmtpSend ups])"
  by (simp add: send_email_def split: option.splits)

lemma trace_save_log:
  "trace (save_log env w m t) = trace w @ [PutObject (log_key env w t) (LogBody m)]"
  by (simp add: save_log_def trace_put_object)

lemma log_key_prefix: "prefix ''logs/'' (log_key env w t)"
  by (simp add: log_key_def)

lemma s3_save_log: "\<not> prefix ''logs/'' k \<Longrightarrow> s3 (save_log env w m t) k = s3 w k"
  using log_key_prefix [of env w t]
  by (auto simp: save_log_def put_object_def emit_def split: option.splits)

lemma all_processed_loop:
  "all_processed env w links \<Longrightarrow>
   analyze_loop env w ups links =
     (w\<lparr>trace := trace w @ map (\<lambda>u. HeadObject (marker_key env u)) links\<rparr>, ups)"
proof (induction links arbitrary: w)
  case Nil
  then show ?case by simp
next
  case (Cons u rest)
  let ?w1 = "emit (HeadObject (marker_key env u)) w"
  from Cons.prems have f: "file_already_processed env w u = (?w1, Inr True)"
    and r: "all_processed env ?w1 rest"
    using file_already_processed_world [of env w u]
    by (auto split: prod.splits)
  have "process_link env w ups u = (?w1, ups, AlreadyProcessed)"
    using f by (simp add: process_link_def)
  then show ?case
    using Cons.IH [OF r] by (simp add: emit_def)
qed

lemma marked_all_processed:
  assumes "\<forall>t. s3_fault env t = None" and "\<forall>u\<in>set links. s3 w (marker_key env u) \<noteq> None"
  shows "all_processed env w links"
  using assms(2)
proof (induction links arbitrary: w)
  case Nil
  then show ?case by simp
next
  case (Cons u rest)
  let ?w1 = "emit (HeadObject (marker_key env u)) w"
  have "file_already_processed env w u = (?w1, Inr True)"
    using assms(1) Cons.prems
    by (auto simp: file_already_processed_def head_object_def split: option.splits)
  moreover have "all_processed env ?w1 rest"
    using Cons.prems by (intro Cons.IH) (simp add: emit_def)
  ultimately show ?case by simp
qed

lemma scrape_boletines_events:
  "\<exists>k\<le>3. trace (fst (scrape_boletines env w)) = trace w @ attempts k SAT_URL"
proof -
  have "fst (scrape_boletines env w) = fst (get_with_retries env w SAT_URL MAX_RETRIES)"
    by (simp add: scrape_boletines_def split: prod.splits sum.splits option.splits)
  then show ?thesis
    using get_with_retries_trace [of MAX_RETRIES env w SAT_URL] by (simp add: MAX_RETRIES_def)
qed

lemma heads_quiet:
  "fetched_urls (map (\<lambda>u. HeadObject (f u)) xs) = [] \<and>
   emails_sent (map (\<lambda>u. HeadObject (f u)) xs) = []"
  by (induction xs) simp_all

text \<open>
  C2. When the configuration is complete, the source page yields the links \<open>links\<close> and the
  dedup check of each of the (first ten) links answers \<open>True\<close>, the analysis makes these
  checks and nothing else and returns no match; the run requests no document after the
  discovery, submits no email, and answers 200 with status \<open>success\<close> and
  \<open>updates_found = 0\<close>.
\<close>

theorem rerun_all_processed:
  assumes "validate_environment env = Inr ()"
    and "scrape_boletines env w = (w1, Inr links)"
    and "all_processed env w1 (take 10 links)"
  shows "analyze_pdfs env w1 links =
           (w1\<lparr>trace := trace w1 @ map (\<lambda>u. HeadObject (marker_key env u)) (take 10 links)\<rparr>, []) \<and>
         fetched_urls (new_events w1 (fst (lambda_handler env w))) = [] \<and>
         emails_sent (new_events w (fst (lambda_handler env w))) = [] \<and>
         statusCode (snd (lambda_handler env w)) = 200 \<and>
         status (body (snd (lambda_handler env w))) = ''success'' \<and>
         updates_found (body (snd (lambda_handler env w))) = 0"
proof -
  let ?heads = "map (\<lambda>u. HeadObject (marker_key env u)) (take 10 links)"
  let ?w2 = "w1\<lparr>trace := trace w1 @ ?heads\<rparr>"
  have a: "analyze_pdfs env w1 links = (?w2, [])"
    using all_processed_loop [OF assms(3), of "[]"] by (simp add: analyze_pdfs_def)
  have m: "monitor env w = (?w2, Inr (links, []))"
    using assms(1,2) a by (simp add: monitor_def send_email_def)
  obtain k where k: "trace w1 = trace w @ attempts k SAT_URL"
    using scrape_boletines_events [of env w] assms(2) by auto
  let ?log = "SuccessLog (clock_iso env (now ?w2)) (seconds_between env (now w) (now ?w2))
                (length links) 0 []"
  have h: "lambda_handler env w =
             (save_log env ?w2 ?log ''success'',
              \<lparr>statusCode = 200,
               body = Success 0 (length links) (seconds_between env (now w) (now ?w2))\<rparr>)"
    using m by (simp add: lambda_handler_def Let_def)
  have t: "trace (fst (lambda_handler env w)) =
             trace w1 @ ?heads @ [PutObject (log_key env ?w2 ''success'') (LogBody ?log)]"
    using h by (simp add: trace_save_log)
  have q: "fetched_urls ?heads = []" "emails_sent ?heads = []"
    by (simp_all add: heads_quiet)
  have 1: "fetched_urls (new_events w1 (fst (lambda_handler env w))) = []"
    using t q by (simp add: new_events_def)
  have "new_events w (fst (lambda_handler env w)) =
          attempts k SAT_URL @ ?heads @ [PutObject (log_key env ?w2 ''success'') (LogBody ?log)]"
    using t k by (simp add: new_events_def)
  then have 2: "emails_sent (new_events w (fst (lambda_handler env w))) = []"
    using q attempts_quiet [of k SAT_URL env] by simp
  show ?thesis using a 1 2 h by simp
qed


lemma analyze_pdfs_events:
  "\<exists>es. trace (fst (analyze_pdfs env w links)) = trace w @ es \<and>
        dedup_checks es = map (marker_key env) (take 10 links) \<and> emails_sent es = []"
  using analyze_loop_events [of env w "[]" "take 10 links"]
  by (auto simp: analyze_pdfs_def)

lemma handler_200:
  "statusCode (snd (lambda_handler env w)) = 200 \<Longrightarrow>
   \<exists>w3 links ups. monitor env w = (w3, Inr (links, ups))"
  by (auto simp: lambda_handler_def Let_def split: prod.splits sum.splits exn.splits)

lemma monitor_ok:
  "monitor env w = (w3, Inr (links, ups)) \<Longrightarrow>
   validate_environment env = Inr () \<and>
   (\<exists>w1 w2. scrape_boletines env w = (w1, Inr links) \<and> analyze_pdfs env w1 links = (w2, ups) \<and>
      send_email env w2 ups = (w3, Inr ()))"
  by (auto simp: monitor_def split: prod.splits sum.splits)

text \<open>
  C10. A run that answers 200 has discovered a list of links, and \<open>pdfs_analyzed\<close> is the
  length of that whole list, while the run made one dedup check for each of its first ten
  links only.
\<close>

theorem pdfs_analyzed_is_discovered:
  assumes "statusCode (snd (lambda_handler env w)) = 200"
  shows "\<exists>w1 links. scrape_boletines env w = (w1, Inr links) \<and>
           pdfs_analyzed (body (snd (lambda_handler env w))) = length links \<and>
           length (dedup_checks (new_events w1 (fst (lambda_handler env w)))) =
             min 10 (length links)"
proof -
  from handler_200 [OF assms] obtain w3 links ups where
    m: "monitor env w = (w3, Inr (links, ups))" by blast
  from monitor_ok [OF m] obtain w1 w2 where
    s: "scrape_boletines env w = (w1, Inr links)" and
    a: "analyze_pdfs env w1 links = (w2, ups)" and
    e: "send_email env w2 ups = (w3, Inr ())" by blast
  obtain es where es: "trace w2 = trace w1 @ es"
    "dedup_checks es = map (marker_key env) (take 10 links)"
    using analyze_pdfs_events [of env w1 links] a by auto
  have t3: "trace w3 = trace w2 @ (if ups = [] then [] else [SmtpSend ups])"
    using trace_send_email [of env w2 ups] e by simp
  let ?log = "SuccessLog (clock_iso env (now w3)) (seconds_between env (now w) (now w3))
                (length links) (length ups) (map mr_pdf ups)"
  have h: "lambda_handler env w =
             (save_log env w3 ?log ''success'',
              \<lparr>statusCode = 200,
               body = Success (length ups) (length links) (seconds_between env (now w) (now w3))\<rparr>)"
    using m by (simp add: lambda_handler_def Let_def)
  have "trace (fst (lambda_handler env w)) =
          trace w1 @ es @ (if ups = [] then [] else [SmtpSend ups]) @
            [PutObject (log_key env w3 ''success'') (LogBody ?log)]"
    using h es(1) t3 by (simp add: trace_save_log)
  then have "dedup_checks (new_events w1 (fst (lambda_handler env w))) =
               map (marker_key env) (take 10 links)"
    using es(2) by (simp add: new_events_def)
  then have "length (dedup_checks (new_events w1 (fst (lambda_handler env w)))) =
               min 10 (length links)"
    by (simp add: min.commute)
  then show ?thesis using s h by simp
qed

text \<open>
  C9. With no match \<open>send_email\<close> does nothing, and a run whose analysis found no match
  sends no email and answers 200. With matches and an SMTP session that raises,
  \<open>send_email\<close> raises a \<open>SATMonitorError\<close> around the exception and the run answers 500 with
  that error as its message; the only external calls after the analysis are the send
  attempt and the write of the error log, so every object the analysis put into the bucket
  (archived documents and markers) is still there, and only keys under \<open>logs/\<close> can differ.
\<close>

theorem notification_failure:
  "send_email env w [] = (w, Inr ()) \<and>
   (validate_environment env = Inr () \<and> scrape_boletines env w = (w1, Inr links) \<and>
    analyze_pdfs env w1 links = (w2, []) \<longrightarrow>
      statusCode (snd (lambda_handler env w)) = 200 \<and>
      emails_sent (new_events w (fst (lambda_handler env w))) = []) \<and>
   (validate_environment env = Inr () \<and> scrape_boletines env w = (w1, Inr links) \<and>
    analyze_pdfs env w1 links = (w2, updates) \<and> updates \<noteq> [] \<and>
    smtp_fault env (now w2) = Some e \<longrightarrow>
      send_email env w2 updates =
        (emit (SmtpSend updates) w2, Inl (SATMonitorError (EmailFailed e))) \<and>
      snd (lambda_handler env w) =
        \<lparr>statusCode = 500, body = Error (Message (EmailFailed e))\<rparr> \<and>
      (\<exists>b. trace (fst (lambda_handler env w)) =
             trace w2 @ [SmtpSend updates, PutObject (log_key env (emit (SmtpSend updates) w2) ''error'') b]) \<and>
      (\<forall>k. \<not> prefix ''logs/'' k \<longrightarrow> s3 (fst (lambda_handler env w)) k = s3 w2 k))"
proof (intro conjI impI)
  show "send_email env w [] = (w, Inr ())" by (simp add: send_email_def)
next
  assume a: "validate_environment env = Inr () \<and> scrape_boletines env w = (w1, Inr links) \<and>
    analyze_pdfs env w1 links = (w2, [])"
  then have m: "monitor env w = (w2, Inr (links, []))"
    by (simp add: monitor_def send_email_def)
  obtain k where k: "trace w1 = trace w @ attempts k SAT_URL"
    using scrape_boletines_events [of env w] a by auto
  obtain es where es: "trace w2 = trace w1 @ es" "emails_sent es = []"
    using analyze_pdfs_events [of env w1 links] a by auto
  let ?log = "SuccessLog (clock_iso env (now w2)) (seconds_between env (now w) (now w2))
                (length links) 0 []"
  have h: "lambda_handler env w =
             (save_log env w2 ?log ''success'',
              \<lparr>statusCode = 200,
               body = Success 0 (length links) (seconds_between env (now w) (now w2))\<rparr>)"
    using m by (simp add: lambda_handler_def Let_def)
  then show "statusCode (snd (lambda_handler env w)) = 200" by simp
  have "new_events w (fst (lambda_handler env w)) =
          attempts k SAT_URL @ es @ [PutObject (log_key env w2 ''success'') (LogBody ?log)]"
    using h k es(1) by (simp add: trace_save_log new_events_def)
  then show "emails_sent (new_events w (fst (lambda_handler env w))) = []"
    using es(2) attempts_quiet [of k SAT_URL env] by simp
next
  assume a: "validate_environment env = Inr () \<and> scrape_boletines env w = (w1, Inr links) \<and>
    analyze_pdfs env w1 links = (w2, updates) \<and> updates \<noteq> [] \<and>
    smtp_fault env (now w2) = Some e"
  let ?w3 = "emit (SmtpSend updates) w2"
  show s: "send_email env w2 updates = (?w3, Inl (SATMonitorError (EmailFailed e)))"
    using a by (simp add: send_email_def)
  have m: "monitor env w = (?w3, Inl (SATMonitorError (EmailFailed e)))"
    using a s by (simp add: monitor_def)
  let ?b = "LogBody (ErrorLog (EmailFailed e) (clock_iso env (now ?w3)))"
  have h: "lambda_handler env w =
             (save_log env ?w3 (ErrorLog (EmailFailed e) (clock_iso env (now ?w3))) ''error'',
              \<lparr>statusCode = 500, body = Error (Message (EmailFailed e))\<rparr>)"
    using m by (simp add: lambda_handler_def)
  then show "snd (lambda_handler env w) =
               \<lparr>statusCode = 500, body = Error (Message (EmailFailed e))\<rparr>" by simp
  have "trace (fst (lambda_handler env w)) =
          trace w2 @ [SmtpSend updates, PutObject (log_key env ?w3 ''error'') ?b]"
    using h by (simp add: trace_save_log)
  then show "\<exists>b. trace (fst (lambda_handler env w)) =
             trace w2 @ [SmtpSend updates, PutObject (log_key env ?w3 ''error'') b]"
    by blast
  show "\<forall>k. \<not> prefix ''logs/'' k \<longrightarrow> s3 (fst (lambda_handler env w)) k = s3 w2 k"
    using h by (simp add: s3_save_log emit_def)
qed

section \<open>Temporary files\<close>

text \<open>
  The \<^verbatim>\<open>finally\<close> block removes the temporary file on every path that starts after the
  bytes were written: as long as no write into a temporary file raises, the analysis leaves
  no temporary file behind that was not there before.
\<close>

lemma get_never_None: "snd (get_with_retries env w u MAX_RETRIES) \<noteq> Inr None"
  by (auto simp: get_with_retries_def py_range_def MAX_RETRIES_def upto.simps
      attempt_request_eq split: sum.splits)

lemma tmpfs_upload_file: "tmpfs (fst (upload_file env w p k)) = tmpfs w"
  by (simp add: upload_file_def emit_def split: option.splits)

lemma tmpfs_mark_as_processed: "tmpfs (mark_as_processed env w u) = tmpfs w"
  by (simp add: mark_as_processed_def put_object_def emit_def split: option.splits)

lemma tmpfs_process_document: "tmpfs (fst (process_document env w ups u n p)) = tmpfs w"
proof -
  obtain w1 r where up: "upload_file env w p (archive_key env w n) = (w1, r)"
    by (cases "upload_file env w p (archive_key env w n)") auto
  then have "tmpfs w1 = tmpfs w"
    using tmpfs_upload_file [of env w p "archive_key env w n"] by simp
  then show ?thesis
    using up by (simp add: process_document_def Let_def tmpfs_mark_as_processed split: sum.splits)
qed

lemma tmpfs_cleanup: "tmpfs (cleanup w p) = (tmpfs w)(p := None)"
  by (auto simp: cleanup_def emit_def split: option.splits)

lemma tmpfs_write_tmp:
  "\<forall>m. tmp_fault env (now w) \<noteq> Some (WriteFails m) \<Longrightarrow>
   write_tmp env w (Some r) = (w3, res) \<Longrightarrow>
   (case res of Inl e \<Rightarrow> tmpfs w3 = tmpfs w
    | Inr p \<Rightarrow> tmpfs w3 = (tmpfs w)(p \<mapsto> resp_content r))"
  by (auto simp: write_tmp_def Let_def emit_def split: option.splits tmp_fault.splits)

lemma process_link_no_leak:
  assumes "\<forall>t m. tmp_fault env t \<noteq> Some (WriteFails m)"
  shows "tmpfs (fst (process_link env w ups u)) \<subseteq>\<^sub>m tmpfs w"
proof -
  let ?w1 = "emit (HeadObject (marker_key env u)) w"
  have w1: "fst (file_already_processed env w u) = ?w1"
    by (rule file_already_processed_world)
  have t1: "tmpfs ?w1 = tmpfs w" by (simp add: emit_def)
  obtain w2 g where g: "get_with_retries env ?w1 u MAX_RETRIES = (w2, g)"
    by (cases "get_with_retries env ?w1 u MAX_RETRIES") auto
  have t2: "tmpfs w2 = tmpfs w"
    using get_with_retries_stores [of env ?w1 u MAX_RETRIES] g t1 by simp
  have gN: "g \<noteq> Inr None" using get_never_None [of env ?w1 u] g by simp
  show ?thesis
  proof (cases "file_already_processed env w u")
    case (Pair wa ra)
    then have wa: "wa = ?w1" using w1 by simp
    show ?thesis
    proof (cases "ra = Inr False")
      case False
      then have "fst (process_link env w ups u) = ?w1"
        using Pair wa by (auto simp: process_link_def split: sum.splits bool.splits)
      then show ?thesis by (simp add: t1)
    next
      case True
      show ?thesis
      proof (cases g)
        case (Inl e)
        then have "fst (process_link env w ups u) = w2"
          using Pair wa True g by (simp add: process_link_def)
        then show ?thesis by (simp add: t2)
      next
        case (Inr ro)
        then obtain r where r: "g = Inr (Some r)" using gN by (cases ro) auto
        obtain w3 res where t: "write_tmp env w2 (Some r) = (w3, res)"
          by (cases "write_tmp env w2 (Some r)") auto
        note wt = tmpfs_write_tmp [OF _ t]
        show ?thesis
        proof (cases res)
          case (Inl e)
          then have "fst (process_link env w ups u) = w3"
            using Pair wa True g r t by (simp add: process_link_def)
          moreover have "tmpfs w3 = tmpfs w" using wt assms Inl t2 by simp
          ultimately show ?thesis by simp
        next
          case (Inr p)
          let ?d = "process_document env w3 ups u (pdf_name_of env u) p"
          have "fst (process_link env w ups u) = cleanup (fst ?d) p"
            using Pair wa True g r t Inr by (simp add: process_link_def split: prod.splits)
          moreover have "tmpfs w3 = (tmpfs w)(p \<mapsto> resp_content r)"
            using wt assms Inr t2 by simp
          ultimately have "tmpfs (fst (process_link env w ups u)) = (tmpfs w)(p := None)"
            by (simp add: tmpfs_cleanup tmpfs_process_document)
          then show ?thesis by (simp add: map_le_def)
        qed
      qed
    qed
  qed
qed

lemma no_leak_when_write_succeeds:
  assumes "\<forall>t m. tmp_fault env t \<noteq> Some (WriteFails m)"
  shows "tmpfs (fst (analyze_pdfs env w links)) \<subseteq>\<^sub>m tmpfs w"
proof -
  have "tmpfs (fst (analyze_loop env w ups ls)) \<subseteq>\<^sub>m tmpfs w" for ups ls
  proof (induction ls arbitrary: w ups)
    case Nil
    then show ?case by simp
  next
    case (Cons u rest)
    obtain w1 ups1 out where p: "process_link env w ups u = (w1, ups1, out)"
      by (cases "process_link env w ups u") auto
    have "tmpfs w1 \<subseteq>\<^sub>m tmpfs w"
      using process_link_no_leak [OF assms, of w ups u] p by simp
    moreover have "tmpfs (fst (analyze_loop env w1 ups1 rest)) \<subseteq>\<^sub>m tmpfs w1"
      by (rule Cons.IH)
    ultimately show ?case using p by (auto intro: map_le_trans)
  qed
  then show ?thesis by (simp add: analyze_pdfs_def)
qed

section \<open>Sample runs\<close>

lemmas run_defs =
  lambda_handler_def monitor_def validate_environment_def required_vars_def is_missing_def
  scrape_boletines_def analyze_pdfs_def process_link_def file_already_processed_def
  head_object_def marker_key_def get_with_retries_def py_range_def upto.simps
  attempt_request_def requests_get_def raise_for_status_def time_sleep_def write_tmp_def
  process_document_def extract_text_from_pdf_def read_pdf_def open_rb_def pdf_name_of_def
  archive_key_def upload_file_def mark_as_processed_def put_object_def cleanup_def
  send_email_def save_log_def log_key_def emit_def now_def new_events_def endswith_def
  Let_def KEYWORDS_def SAT_URL_def MAX_RETRIES_def RETRY_DELAY_def REQUEST_TIMEOUT_def
  ascii_lower_def sample_response_def sample_env_def empty_world_def

text \<open>
  C1 fails on the code. The file is created with \<^verbatim>\<open>delete=False\<close> and the bytes are written
  inside the \<^verbatim>\<open>with\<close> block of lines 165-167, before the \<^verbatim>\<open>try\<close> of line 169 whose
  \<^verbatim>\<open>finally\<close> removes it. When the write raises (here: the disk is full), the exception
  goes to the \<^verbatim>\<open>except\<close> of line 204 and the file stays: after the run of one link the
  temporary directory, empty before, holds the file, and the trace has no unlink.
\<close>

theorem temp_file_leak:
  "tmpfs empty_world = Map.empty \<and>
   tmpfs (fst (analyze_pdfs disk_full_env empty_world [''http://sat.example/boletin/x.pdf'']))
     = [0 \<mapsto> []] \<and>
   trace (fst (analyze_pdfs disk_full_env empty_world [''http://sat.example/boletin/x.pdf'']))
     = [HeadObject ''processed/http://sat.example/boletin/x.pdf.txt'',
        HttpGet ''http://sat.example/boletin/x.pdf'' 30, TmpCreate 0]"
  by (simp add: run_defs disk_full_env_def)

lemma sample_validate: "validate_environment sample_env = Inr ()"
  by (simp add: validate_environment_def required_vars_def is_missing_def sample_env_def)

lemma sample_scrape:
  "scrape_boletines sample_env w =
     (emit (HttpGet SAT_URL REQUEST_TIMEOUT) w,
      Inr [''http://sat.example/boletin/x.pdf'', ''http://sat.example/a/doc.pdf'',
           ''http://sat.example/boletin/x.pdf''])"
  by (simp add: scrape_boletines_def sample_get)
     (simp add: sample_env_def sample_response_def endswith_def)

lemma seen_all_processed: "s3 w = s3 seen_world \<Longrightarrow> all_processed sample_env w links"
  by (rule marked_all_processed)
     (simp_all add: sample_env_def seen_world_def empty_world_def marker_key_def)

theorem rerun_all_processed_witness:
  "validate_environment sample_env = Inr () \<and>
   scrape_boletines sample_env seen_world =
     (emit (HttpGet SAT_URL REQUEST_TIMEOUT) seen_world,
      Inr [''http://sat.example/boletin/x.pdf'', ''http://sat.example/a/doc.pdf'',
           ''http://sat.example/boletin/x.pdf'']) \<and>
   all_processed sample_env (emit (HttpGet SAT_URL REQUEST_TIMEOUT) seen_world)
     (take 10 [''http://sat.example/boletin/x.pdf'', ''http://sat.example/a/doc.pdf'',
               ''http://sat.example/boletin/x.pdf'']) \<and>
   snd (analyze_pdfs sample_env (emit (HttpGet SAT_URL REQUEST_TIMEOUT) seen_world)
     [''http://sat.example/boletin/x.pdf'', ''http://sat.example/a/doc.pdf'',
      ''http://sat.example/boletin/x.pdf'']) = [] \<and>
   fetched_urls (new_events (emit (HttpGet SAT_URL REQUEST_TIMEOUT) seen_world)
     (fst (lambda_handler sample_env seen_world))) = [] \<and>
   emails_sent (new_events seen_world (fst (lambda_handler sample_env seen_world))) = [] \<and>
   statusCode (snd (lambda_handler sample_env seen_world)) = 200 \<and>
   status (body (snd (lambda_handler sample_env seen_world))) = ''success'' \<and>
   updates_found (body (snd (lambda_handler sample_env seen_world))) = 0"
proof -
  have p: "all_processed sample_env (emit (HttpGet SAT_URL REQUEST_TIMEOUT) seen_world)
     (take 10 [''http://sat.example/boletin/x.pdf'', ''http://sat.example/a/doc.pdf'',
               ''http://sat.example/boletin/x.pdf''])"
    by (rule seen_all_processed) (simp add: emit_def)
  from rerun_all_processed [OF sample_validate sample_scrape p] sample_validate sample_scrape p
  show ?thesis by simp
qed

theorem notification_failure_witness:
  "validate_environment smtp_down_env = Inr () \<and>
   scrape_boletines smtp_down_env empty_world =
     (emit (HttpGet SAT_URL REQUEST_TIMEOUT) empty_world, Inr [''http://sat.example/boletin/x.pdf'']) \<and>
   snd (analyze_pdfs smtp_down_env (emit (HttpGet SAT_URL REQUEST_TIMEOUT) empty_world)
          [''http://sat.example/boletin/x.pdf'']) =
     [\<lparr>mr_pdf = ''x.pdf'', mr_keywords = [''CFDI 4.0'', ''Anexo 20''],
       mr_url = ''http://sat.example/boletin/x.pdf'', mr_processed_at = ''2024-01-01T00:00:00''\<rparr>] \<and>
   smtp_fault smtp_down_env
     (now (fst (analyze_pdfs smtp_down_env (emit (HttpGet SAT_URL REQUEST_TIMEOUT) empty_world)
                  [''http://sat.example/boletin/x.pdf'']))) =
     Some (OtherException ''SMTPAuthenticationError'') \<and>
   snd (lambda_handler smtp_down_env empty_world) =
     \<lparr>statusCode = 500,
      body = Error (Message (EmailFailed (OtherException ''SMTPAuthenticationError'')))\<rparr> \<and>
   s3 (fst (lambda_handler smtp_down_env empty_world)) ''boletines/20240101/x.pdf'' =
     Some (FileBody ''Nuevo CFDI 4.0'') \<and>
   s3 (fst (lambda_handler smtp_down_env empty_world))
       ''processed/http://sat.example/boletin/x.pdf.txt'' =
     Some (MarkerBody ''2024-01-01T00:00:00'' ''http://sat.example/boletin/x.pdf'') \<and>
   snd (analyze_pdfs sample_env (emit (HttpGet SAT_URL REQUEST_TIMEOUT) seen_world)
     [''http://sat.example/boletin/x.pdf'', ''http://sat.example/a/doc.pdf'',
      ''http://sat.example/boletin/x.pdf'']) = [] \<and>
   statusCode (snd (lambda_handler sample_env seen_world)) = 200 \<and>
   emails_sent (new_events seen_world (fst (lambda_handler sample_env seen_world))) = []"
proof -
  let ?u = "''http://sat.example/boletin/x.pdf''"
  let ?w1 = "emit (HttpGet SAT_URL REQUEST_TIMEOUT) empty_world"
  let ?e = "OtherException ''SMTPAuthenticationError''"
  let ?m = "\<lparr>mr_pdf = ''x.pdf'', mr_keywords = [''CFDI 4.0'', ''Anexo 20''],
       mr_url = ?u, mr_processed_at = ''2024-01-01T00:00:00''\<rparr>"
  let ?w2 = "fst (analyze_pdfs smtp_down_env ?w1 [?u])"
  have v: "validate_environment smtp_down_env = Inr ()"
    by (simp add: run_defs smtp_down_env_def)
  have s: "scrape_boletines smtp_down_env empty_world = (?w1, Inr [?u])"
    by (simp add: run_defs smtp_down_env_def)
  have a: "snd (analyze_pdfs smtp_down_env ?w1 [?u]) = [?m]"
    by (simp add: run_defs smtp_down_env_def)
  have a': "analyze_pdfs smtp_down_env ?w1 [?u] = (?w2, [?m])"
    using a by (simp add: prod_eq_iff)
  have f: "smtp_fault smtp_down_env (now ?w2) = Some ?e"
    by (simp add: smtp_down_env_def)
  have b1: "s3 ?w2 ''boletines/20240101/x.pdf'' = Some (FileBody ''Nuevo CFDI 4.0'')"
    by (simp add: run_defs smtp_down_env_def)
  have b2: "s3 ?w2 ''processed/http://sat.example/boletin/x.pdf.txt'' =
              Some (MarkerBody ''2024-01-01T00:00:00'' ?u)"
    by (simp add: run_defs smtp_down_env_def)
  have "validate_environment smtp_down_env = Inr () \<and>
        scrape_boletines smtp_down_env empty_world = (?w1, Inr [?u]) \<and>
        analyze_pdfs smtp_down_env ?w1 [?u] = (?w2, [?m]) \<and> [?m] \<noteq> [] \<and>
        smtp_fault smtp_down_env (now ?w2) = Some ?e"
    using v s a' f by simp
  from notification_failure [of smtp_down_env empty_world ?w1 "[?u]" ?w2 "[?m]" ?e,
      THEN conjunct2, THEN conjunct2, THEN mp, OF this]
  have r: "snd (lambda_handler smtp_down_env empty_world) =
             \<lparr>statusCode = 500, body = Error (Message (EmailFailed ?e))\<rparr>"
    and k: "\<forall>k. \<not> prefix ''logs/'' k \<longrightarrow>
              s3 (fst (lambda_handler smtp_down_env empty_world)) k = s3 ?w2 k"
    by blast+
  have c1: "s3 (fst (lambda_handler smtp_down_env empty_world)) ''boletines/20240101/x.pdf'' =
              Some (FileBody ''Nuevo CFDI 4.0'')"
    using k b1 by simp
  have c2: "s3 (fst (lambda_handler smtp_down_env empty_world))
              ''processed/http://sat.example/boletin/x.pdf.txt'' =
              Some (MarkerBody ''2024-01-01T00:00:00'' ?u)"
    using k b2 by simp
  let ?l = "[''http://sat.example/boletin/x.pdf'', ''http://sat.example/a/doc.pdf'',
      ''http://sat.example/boletin/x.pdf'']"
  let ?v1 = "emit (HttpGet SAT_URL REQUEST_TIMEOUT) seen_world"
  let ?v2 = "fst (analyze_pdfs sample_env ?v1 ?l)"
  have "all_processed sample_env ?v1 (take 10 ?l)"
    by (rule seen_all_processed) (simp add: emit_def)
  from all_processed_loop [OF this, of "[]"]
  have n: "snd (analyze_pdfs sample_env ?v1 ?l) = []"
    unfolding analyze_pdfs_def by (simp only: snd_conv)
  then have "validate_environment sample_env = Inr () \<and>
        scrape_boletines sample_env seen_world = (?v1, Inr ?l) \<and>
        analyze_pdfs sample_env ?v1 ?l = (?v2, [])"
    using sample_validate sample_scrape by (simp add: prod_eq_iff)
  from notification_failure [of sample_env seen_world ?v1 ?l ?v2,
      THEN conjunct2, THEN conjunct1, THEN mp, OF this]
  have d: "statusCode (snd (lambda_handler sample_env seen_world)) = 200"
    and e: "emails_sent (new_events seen_world (fst (lambda_handler sample_env seen_world))) = []"
    by blast+
  show ?thesis
    using v s a f r c1 c2 n d e by blast
qed


lemma many_scrape:
  "scrape_boletines many_env w =
     (emit (HttpGet SAT_URL REQUEST_TIMEOUT) w, Inr (replicate 25 ''http://sat.example/boletin/x.pdf''))"
proof -
  have "get_with_retries many_env w SAT_URL MAX_RETRIES =
          (emit (HttpGet SAT_URL REQUEST_TIMEOUT) w, Inr (Some sample_response))"
    by (simp add: get_with_retries_def py_range_def upto.simps attempt_request_def
        requests_get_def raise_for_status_def MAX_RETRIES_def many_env_def sample_env_def
        sample_response_def)
  then show ?thesis
    by (simp add: scrape_boletines_def collect_pdf_links_eq many_env_def sample_env_def
        endswith_def)
qed

lemma many_all_processed: "s3 w = s3 seen_world \<Longrightarrow> all_processed many_env w links"
  by (rule marked_all_processed)
     (simp_all add: many_env_def sample_env_def seen_world_def empty_world_def marker_key_def)

lemma many_status: "statusCode (snd (lambda_handler many_env seen_world)) = 200"
proof -
  let ?l = "replicate 25 ''http://sat.example/boletin/x.pdf''"
  let ?w1 = "emit (HttpGet SAT_URL REQUEST_TIMEOUT) seen_world"
  have v: "validate_environment many_env = Inr ()"
    by (simp add: validate_environment_def required_vars_def is_missing_def many_env_def
        sample_env_def)
  have "all_processed many_env ?w1 (take 10 ?l)"
    by (rule many_all_processed) (simp add: emit_def)
  from all_processed_loop [OF this, of "[]"]
  have "snd (analyze_pdfs many_env ?w1 ?l) = []"
    unfolding analyze_pdfs_def by (simp only: snd_conv)
  then obtain w2 where "analyze_pdfs many_env ?w1 ?l = (w2, [])"
    by (cases "analyze_pdfs many_env ?w1 ?l") simp
  then have "monitor many_env seen_world = (w2, Inr (?l, []))"
    using v by (simp add: monitor_def many_scrape send_email_def)
  then show ?thesis
    by (simp add: lambda_handler_def Let_def)
qed

theorem pdfs_analyzed_is_discovered_witness:
  "statusCode (snd (lambda_handler many_env seen_world)) = 200 \<and>
   scrape_boletines many_env seen_world =
     (emit (HttpGet SAT_URL REQUEST_TIMEOUT) seen_world,
      Inr (replicate 25 ''http://sat.example/boletin/x.pdf'')) \<and>
   pdfs_analyzed (body (snd (lambda_handler many_env seen_world))) = 25 \<and>
   length (dedup_checks (new_events (emit (HttpGet SAT_URL REQUEST_TIMEOUT) seen_world)
             (fst (lambda_handler many_env seen_world)))) = 10"
  using pdfs_analyzed_is_discovered [OF many_status] many_status
  by (simp add: many_scrape)

theorem analyze_pdfs_cap_witness:
  "analyze_pdfs sample_env one_new_world twelve_links =
     analyze_pdfs sample_env one_new_world (take 10 twelve_links) \<and>
   new_events one_new_world (fst (analyze_pdfs sample_env one_new_world twelve_links)) =
     [HeadObject ''processed/http://sat.example/b/01.pdf.txt'',
      HttpGet ''http://sat.example/b/01.pdf'' 30,
      TmpCreate 0,
      UploadFile 0 ''boletines/20240101/01.pdf'',
      PutObject ''processed/http://sat.example/b/01.pdf.txt''
        (MarkerBody ''2024-01-01T00:00:00'' ''http://sat.example/b/01.pdf''),
      TmpUnlink 0,
      HeadObject ''processed/http://sat.example/b/02.pdf.txt'',
      HeadObject ''processed/http://sat.example/b/03.pdf.txt'',
      HeadObject ''processed/http://sat.example/b/04.pdf.txt'',
      HeadObject ''processed/http://sat.example/b/05.pdf.txt'',
      HeadObject ''processed/http://sat.example/b/06.pdf.txt'',
      HeadObject ''processed/http://sat.example/b/07.pdf.txt'',
      HeadObject ''processed/http://sat.example/b/08.pdf.txt'',
      HeadObject ''processed/http://sat.example/b/09.pdf.txt'',
      HeadObject ''processed/http://sat.example/b/10.pdf.txt''] \<and>
   dedup_checks (new_events one_new_world (fst (analyze_pdfs sample_env one_new_world twelve_links))) =
     map (marker_key sample_env) (take 10 twelve_links)"
proof -
  have "new_events one_new_world (fst (analyze_pdfs sample_env one_new_world twelve_links)) =
     [HeadObject ''processed/http://sat.example/b/01.pdf.txt'',
      HttpGet ''http://sat.example/b/01.pdf'' 30,
      TmpCreate 0,
      UploadFile 0 ''boletines/20240101/01.pdf'',
      PutObject ''processed/http://sat.example/b/01.pdf.txt''
        (MarkerBody ''2024-01-01T00:00:00'' ''http://sat.example/b/01.pdf''),
      TmpUnlink 0,
      HeadObject ''processed/http://sat.example/b/02.pdf.txt'',
      HeadObject ''processed/http://sat.example/b/03.pdf.txt'',
      HeadObject ''processed/http://sat.example/b/04.pdf.txt'',
      HeadObject ''processed/http://sat.example/b/05.pdf.txt'',
      HeadObject ''processed/http://sat.example/b/06.pdf.txt'',
      HeadObject ''processed/http://sat.example/b/07.pdf.txt'',
      HeadObject ''processed/http://sat.example/b/08.pdf.txt'',
      HeadObject ''processed/http://sat.example/b/09.pdf.txt'',
      HeadObject ''processed/http://sat.example/b/10.pdf.txt'']"
    by (simp add: run_defs twelve_links_def one_new_world_def seen_world_def)
  moreover note c = analyze_pdfs_cap [of sample_env one_new_world twelve_links]
  moreover from c have "analyze_pdfs sample_env one_new_world twelve_links =
     analyze_pdfs sample_env one_new_world (take 10 twelve_links)"
    by (rule conjunct1)
  moreover from c have
    "dedup_checks (new_events one_new_world (fst (analyze_pdfs sample_env one_new_world twelve_links))) =
       map (marker_key sample_env) (take 10 twelve_links)"
    by blast
  ultimately show ?thesis by blast
qed

end
